theory Spec2Isabelle
  imports Main "HOL-Library.Word" "HOL-Library.Multiset"
begin

section \<open>Data model\<close>

text \<open>
  Bytecode is a \<open>Uint8Array\<close>: a fixed-length sequence of bytes. Values handed to the
  ABI coder (\<open>unknown\<close> / \<open>InputValue\<close>) and ABI type descriptions are opaque to the
  two classes verified here, so they are the type variables \<open>'v\<close> and \<open>'ty\<close>.
  A JavaScript object used as a dictionary is an association list in the order of
  \<open>Object.entries\<close> (insertion order, for keys that are not array indices); its keys
  are pairwise distinct.
\<close>

type_synonym byte = "8 word"
type_synonym bytes = "byte list"

record 'ty JsonAbiFragmentType =
  arg_name :: string
  arg_type :: 'ty

record 'ty FunctionFragment =
  frag_name :: string
  frag_inputs :: "'ty JsonAbiFragmentType list"

record 'ty JsonFlatAbiFragmentFunction =
  fn_name :: string
  fn_inputs :: "'ty JsonAbiFragmentType list"

record 'ty JsonFlatAbi =
  abi_functions :: "'ty JsonFlatAbiFragmentFunction list"

record 'ty Configurable =
  fragmentType :: 'ty
  offset :: nat

text \<open>
  \<open>Interface\<close> (package abi-coder) is used through three of its properties:
  \<open>fragments\<close>, \<open>configurables\<close> and the optional \<open>abi\<close>. The JSON ABI document
  given to \<open>new Interface(jsonAbi)\<close> is represented by the interface built from it.
\<close>

record 'ty Interface =
  fragments :: "'ty FunctionFragment list"
  configurables :: "(string \<times> 'ty Configurable) list"
  abi :: "'ty JsonFlatAbi option"

text \<open>
  Every failure of \<open>setConfigurableConstants\<close> is caught and rethrown as
  \<open>Error("Error setting configurable constants: " + err)\<close>; \<open>cause\<close> is the inner
  error:
  \<^item> \<open>MissingAbi\<close>: "Unable to validate configurable constants, Predicate instantiated
    without json ABI";
  \<^item> \<open>NoConfigurables\<close>: "Predicate has no configurable constants to be set";
  \<^item> \<open>UnknownConfigurable key\<close>: "Predicate has no configurable constant named: key";
  \<^item> \<open>UndefinedFragmentType\<close>: the \<open>TypeError\<close> of \<open>getCoder(undefined)\<close>;
  \<^item> \<open>CodecError\<close>: whatever \<open>getCoder(fragmentType).encode(value)\<close> throws
    otherwise;
  \<^item> \<open>OffsetOutOfRange\<close>: the \<open>RangeError\<close> ("offset is out of bounds") of
    \<open>Uint8Array.prototype.set\<close>.
  \<open>ArgumentError\<close> is what \<open>logger.throwArgumentError\<close> throws, \<open>TypeError\<close> what a
  method call on \<open>undefined\<close> throws, \<open>HexlifyError\<close> what \<open>hexlify\<close> throws on a
  value it does not accept, \<open>UnknownTransactionType\<close> what \<open>transactionRequestify\<close>
  throws. \<open>ArityMismatch\<close> and \<open>EncodingError\<close> are the failures of constructing an
  invocation scope.
\<close>

datatype cause =
  MissingAbi | NoConfigurables | UnknownConfigurable string | UndefinedFragmentType
| CodecError | OffsetOutOfRange

datatype error =
  ConfigurableConstantsError cause | ArgumentError | TypeError
| HexlifyError | UnknownTransactionType | ArityMismatch | EncodingError

section \<open>predicate.ts\<close>

subsection \<open>setConfigurableConstants\<close>

text \<open>
  \<open>target.set(source, offset)\<close> on typed arrays copies \<open>source\<close> into \<open>target\<close> from
  index \<open>offset\<close>; when \<open>offset + source.length > target.length\<close> it throws a
  \<open>RangeError\<close> and copies nothing (\<open>None\<close>). The length of the target never changes.
\<close>

definition typedArray_set :: "bytes \<Rightarrow> bytes \<Rightarrow> nat \<Rightarrow> bytes option" where
  "typedArray_set target source off =
     (if off + length source > length target then None
      else Some (take off target @ source @ drop (off + length source) target))"

text \<open>
  \<open>abiInterface.configurables\<close> is a plain object, and \<open>configurables[key]\<close> is a
  property read: it finds the configurable stored under \<open>key\<close>, else the member of
  that name which every object inherits from \<open>Object.prototype\<close>, else \<open>undefined\<close>.
  An inherited member is a function or an object, so it is truthy.
\<close>

datatype 'ty property = Undefined | OwnProperty "'ty Configurable" | InheritedProperty

definition Object_prototype_names :: "string list" where
  "Object_prototype_names =
     [''constructor'', ''__defineGetter__'', ''__defineSetter__'', ''hasOwnProperty'',
      ''__lookupGetter__'', ''__lookupSetter__'', ''isPrototypeOf'',
      ''propertyIsEnumerable'', ''toString'', ''valueOf'', ''__proto__'',
      ''toLocaleString'']"

definition get_property :: "(string \<times> 'ty Configurable) list \<Rightarrow> string \<Rightarrow> 'ty property" where
  "get_property obj key =
     (case map_of obj key of
        Some c \<Rightarrow> OwnProperty c
      | None \<Rightarrow> if key \<in> set Object_prototype_names then InheritedProperty else Undefined)"

text \<open>
  The body of \<open>Object.entries(configurableConstants).forEach(...)\<close>, entry by entry on
  the buffer \<open>mutatedBytes\<close> (which aliases the \<open>bytes\<close> argument). A throw leaves the
  loop at once; the writes of the entries before it stay in the buffer, so the failure
  carries the buffer as it is at that moment. The name check \<open>!configurables[key]\<close>
  rejects only \<open>undefined\<close>. For an inherited member the destructuring yields
  \<open>fragmentType\<close> and \<open>offset\<close> both \<open>undefined\<close>, and \<open>getCoder(undefined)\<close> throws
  a \<open>TypeError\<close>. \<open>encode ty v\<close> stands for \<open>new AbiCoder().getCoder(ty).encode(v)\<close>
  on a declared type, \<open>None\<close> when the coder throws.
\<close>

fun forEach_entries ::
  "('ty \<Rightarrow> 'v \<Rightarrow> bytes option) \<Rightarrow> (string \<times> 'ty Configurable) list \<Rightarrow>
   (string \<times> 'v) list \<Rightarrow> bytes \<Rightarrow> (cause \<times> bytes) + bytes" where
  "forEach_entries encode cfgs [] mutatedBytes = Inr mutatedBytes"
| "forEach_entries encode cfgs ((key, val) # rest) mutatedBytes =
     (case get_property cfgs key of
        Undefined \<Rightarrow> Inl (UnknownConfigurable key, mutatedBytes)
      | InheritedProperty \<Rightarrow> Inl (UndefinedFragmentType, mutatedBytes)
      | OwnProperty c \<Rightarrow>
         (case encode (fragmentType c) val of
            None \<Rightarrow> Inl (CodecError, mutatedBytes)
          | Some encoded \<Rightarrow>
             (case typedArray_set mutatedBytes encoded (offset c) of
                None \<Rightarrow> Inl (OffsetOutOfRange, mutatedBytes)
              | Some written \<Rightarrow> forEach_entries encode cfgs rest written)))"

definition setConfigurableConstants ::
  "('ty \<Rightarrow> 'v \<Rightarrow> bytes option) \<Rightarrow> bytes \<Rightarrow> (string \<times> 'v) list \<Rightarrow>
   'ty Interface option \<Rightarrow> (error \<times> bytes) + bytes" where
  "setConfigurableConstants encode mutatedBytes configurableConstants abiInterface =
     (case abiInterface of
        None \<Rightarrow> Inl (ConfigurableConstantsError MissingAbi, mutatedBytes)
      | Some iface \<Rightarrow>
         if configurables iface = []
         then Inl (ConfigurableConstantsError NoConfigurables, mutatedBytes)
         else (case forEach_entries encode (configurables iface)
                      configurableConstants mutatedBytes of
                 Inl (c, buf) \<Rightarrow> Inl (ConfigurableConstantsError c, buf)
               | Inr buf \<Rightarrow> Inr buf))"

subsection \<open>processPredicateData\<close>

record 'ty PredicateData =
  predicateBytes :: bytes
  predicateTypes :: "'ty JsonAbiFragmentType list option"
  predicateInterface :: "'ty Interface option"

text \<open>
  The first half of \<open>processPredicateData\<close>: with an ABI, the inputs of the fragment
  named \<open>main\<close>, or an argument error when there is none.
\<close>

definition mainFunctionTypes ::
  "'ty Interface option \<Rightarrow>
   error + ('ty JsonAbiFragmentType list option \<times> 'ty Interface option)" where
  "mainFunctionTypes jsonAbi =
     (case jsonAbi of
        None \<Rightarrow> Inr (None, None)
      | Some iface \<Rightarrow>
         (case find (\<lambda>f. frag_name f = ''main'') (fragments iface) of
            Some mainFunction \<Rightarrow> Inr (Some (frag_inputs mainFunction), Some iface)
          | None \<Rightarrow> Inl ArgumentError))"

text \<open>
  \<open>arrayify(bytes)\<close> copies the caller's bytes into a fresh \<open>Uint8Array\<close>, so only
  this copy is ever written. The patch runs only for a value set that is present and
  has at least one key.
\<close>

definition processPredicateData ::
  "('ty \<Rightarrow> 'v \<Rightarrow> bytes option) \<Rightarrow> bytes \<Rightarrow> 'ty Interface option \<Rightarrow>
   (string \<times> 'v) list option \<Rightarrow> error + 'ty PredicateData" where
  "processPredicateData encode bs jsonAbi configurableConstants =
     (case mainFunctionTypes jsonAbi of
        Inl e \<Rightarrow> Inl e
      | Inr (types, iface) \<Rightarrow>
         (case configurableConstants of
            None \<Rightarrow>
              Inr \<lparr>predicateBytes = bs, predicateTypes = types, predicateInterface = iface\<rparr>
          | Some cc \<Rightarrow>
              if cc = []
              then Inr \<lparr>predicateBytes = bs, predicateTypes = types,
                        predicateInterface = iface\<rparr>
              else (case setConfigurableConstants encode bs cc iface of
                      Inl (e, buf) \<Rightarrow> Inl e
                    | Inr patched \<Rightarrow>
                        Inr \<lparr>predicateBytes = patched, predicateTypes = types,
                             predicateInterface = iface\<rparr>)))"

subsection \<open>The constructor\<close>

text \<open>
  \<open>getContractRoot\<close> (\<open>./utils\<close>) and \<open>Address.fromB256\<close> are parameters; a
  B256 value is of the opaque type \<open>'h\<close>, an address of the opaque type \<open>'a\<close>. The
  \<open>provider\<close> argument is only handed to the \<open>Account\<close> constructor and is left out.
\<close>

record ('ty, 'a) Predicate =
  address :: 'a
  bytes :: bytes
  jsonAbi :: "'ty JsonAbiFragmentType list"
  predicateData :: bytes
  interface :: "'ty Interface option"
  isBuiltByFuelFactory :: bool

definition Predicate_constructor ::
  "('h \<Rightarrow> 'a) \<Rightarrow> (bytes \<Rightarrow> int \<Rightarrow> 'h) \<Rightarrow> ('ty \<Rightarrow> 'v \<Rightarrow> bytes option) \<Rightarrow>
   bytes \<Rightarrow> int \<Rightarrow> 'ty Interface option \<Rightarrow> (string \<times> 'v) list option \<Rightarrow> bool \<Rightarrow>
   error + ('ty, 'a) Predicate" where
  "Predicate_constructor fromB256 getContractRoot encode bs chainId abiDoc
       configurableConstants builtByFactory =
     (case processPredicateData encode bs abiDoc configurableConstants of
        Inl e \<Rightarrow> Inl e
      | Inr d \<Rightarrow>
          Inr \<lparr>address = fromB256 (getContractRoot (predicateBytes d) chainId),
               bytes = predicateBytes d,
               jsonAbi = (case predicateTypes d of None \<Rightarrow> [] | Some ts \<Rightarrow> ts),
               predicateData = [],
               interface = predicateInterface d,
               isBuiltByFuelFactory = builtByFactory\<rparr>)"

text \<open>
  The earlier revision of the class, kept in the same source file: no chain id, no
  configurable constants; the address is computed from the bytes as given.
\<close>

record ('ty, 'a) Predicate_v1 =
  v1_address :: 'a
  v1_bytes :: bytes
  v1_types :: "'ty JsonAbiFragmentType list option"
  v1_predicateData :: bytes
  v1_interface :: "'ty Interface option"

definition Predicate_v1_constructor ::
  "('h \<Rightarrow> 'a) \<Rightarrow> (bytes \<Rightarrow> 'h) \<Rightarrow> bytes \<Rightarrow> 'ty Interface option \<Rightarrow>
   error + ('ty, 'a) Predicate_v1" where
  "Predicate_v1_constructor fromB256 getContractRoot bs types =
     (let addr = fromB256 (getContractRoot bs) in
      case types of
        None \<Rightarrow>
          Inr \<lparr>v1_address = addr, v1_bytes = bs, v1_types = None,
               v1_predicateData = [], v1_interface = None\<rparr>
      | Some iface \<Rightarrow>
         (case find (\<lambda>f. frag_name f = ''main'') (fragments iface) of
            Some mainFunction \<Rightarrow>
              Inr \<lparr>v1_address = addr, v1_bytes = bs,
                   v1_types = Some (frag_inputs mainFunction),
                   v1_predicateData = [], v1_interface = Some iface\<rparr>
          | None \<Rightarrow> Inl ArgumentError))"

subsection \<open>populateTransactionPredicateData\<close>

text \<open>
  A transaction input is a union discriminated by its \<open>type\<close>; only a coin input has
  an \<open>owner\<close>. The fields this class never looks at are the payloads \<open>'x\<close> (of an
  input) and \<open>'r\<close> (of the request). \<open>transactionRequestify\<close>, \<open>hexlify\<close> and
  \<open>toB256\<close> are parameters; the first two throw on what they do not accept (\<open>None\<close>).
  The inputs are objects that the method writes in place, so a failure carries the
  request as it is at the throw.
\<close>

datatype InputType = Coin | Contract | Message

record ('o, 'x) CoinTransactionRequestInput =
  owner :: 'o
  predicate :: "bytes option"
  input_predicateData :: "bytes option"
  coin_fields :: 'x

datatype ('o, 'x) TransactionRequestInput =
  CoinInput "('o, 'x) CoinTransactionRequestInput"
| ContractInput 'x
| MessageInput 'x

fun input_type :: "('o, 'x) TransactionRequestInput \<Rightarrow> InputType" where
  "input_type (CoinInput c) = Coin"
| "input_type (ContractInput x) = Contract"
| "input_type (MessageInput x) = Message"

record ('o, 'x, 'r) TransactionRequest =
  inputs :: "('o, 'x) TransactionRequestInput list option"
  request_fields :: 'r

text \<open>
  The callback of \<open>request.inputs?.forEach\<close> on one input: the input as it is
  afterwards, or the error of \<open>hexlify(input.owner)\<close>, which is evaluated for every coin
  input.
\<close>

fun populate_input ::
  "('o \<Rightarrow> 'h option) \<Rightarrow> ('a \<Rightarrow> 'h) \<Rightarrow> ('ty, 'a) Predicate \<Rightarrow>
   ('o, 'x) TransactionRequestInput \<Rightarrow> error + ('o, 'x) TransactionRequestInput" where
  "populate_input hexlify toB256 this (CoinInput c) =
     (case hexlify (owner c) of
        None \<Rightarrow> Inl HexlifyError
      | Some h \<Rightarrow>
          if h = toB256 (address this)
          then Inr (CoinInput (c\<lparr>predicate := Some (bytes this),
                                 input_predicateData := Some (predicateData this)\<rparr>))
          else Inr (CoinInput c))"
| "populate_input hexlify toB256 this (ContractInput x) = Inr (ContractInput x)"
| "populate_input hexlify toB256 this (MessageInput x) = Inr (MessageInput x)"

text \<open>
  The loop over the inputs, in order. On a throw, the inputs before the failing one have
  been processed and the failing one and those after it are as they were.
\<close>

fun forEach_inputs ::
  "('o \<Rightarrow> 'h option) \<Rightarrow> ('a \<Rightarrow> 'h) \<Rightarrow> ('ty, 'a) Predicate \<Rightarrow>
   ('o, 'x) TransactionRequestInput list \<Rightarrow>
   (error \<times> ('o, 'x) TransactionRequestInput list) + ('o, 'x) TransactionRequestInput list"
  where
  "forEach_inputs hexlify toB256 this [] = Inr []"
| "forEach_inputs hexlify toB256 this (input # rest) =
     (case populate_input hexlify toB256 this input of
        Inl e \<Rightarrow> Inl (e, input # rest)
      | Inr input' \<Rightarrow>
         (case forEach_inputs hexlify toB256 this rest of
            Inl (e, st) \<Rightarrow> Inl (e, input' # st)
          | Inr rest' \<Rightarrow> Inr (input' # rest')))"

definition populateTransactionPredicateData ::
  "('l \<Rightarrow> ('o, 'x, 'r) TransactionRequest option) \<Rightarrow> ('o \<Rightarrow> 'h option) \<Rightarrow> ('a \<Rightarrow> 'h) \<Rightarrow>
   ('ty, 'a) Predicate \<Rightarrow> 'l \<Rightarrow>
   (error \<times> ('o, 'x, 'r) TransactionRequest option) + ('o, 'x, 'r) TransactionRequest" where
  "populateTransactionPredicateData transactionRequestify hexlify toB256 this
       transactionRequestLike =
     (case transactionRequestify transactionRequestLike of
        None \<Rightarrow> Inl (UnknownTransactionType, None)
      | Some request \<Rightarrow>
         (case inputs request of
            None \<Rightarrow> Inr request
          | Some ins \<Rightarrow>
             (case forEach_inputs hexlify toB256 this ins of
                Inl (e, st) \<Rightarrow> Inl (e, Some (request\<lparr>inputs := Some st\<rparr>))
              | Inr outs \<Rightarrow> Inr (request\<lparr>inputs := Some outs\<rparr>))))"

section \<open>contract.ts\<close>

text \<open>
  \<open>Array.prototype.indexOf\<close>: the scan from position \<open>0\<close> upwards for the first
  element equal to \<open>x\<close>; its position, or \<open>-1\<close> when there is none.
\<close>

fun indexOf_from :: "int \<Rightarrow> 'a list \<Rightarrow> 'a \<Rightarrow> int" where
  "indexOf_from k [] x = - 1"
| "indexOf_from k (y # ys) x = (if y = x then k else indexOf_from (k + 1) ys x)"

definition indexOf :: "'a list \<Rightarrow> 'a \<Rightarrow> int" where
  "indexOf xs x = indexOf_from 0 xs x"

record 'ty Contract =
  contract_id :: string
  contract_interface :: "'ty Interface"

text \<open>
  \<open>orderedArgNames\<close> of \<open>_mapObjIntoArgsArray\<close>: the input names of the first function
  of \<open>interface.abi\<close> that has the fragment's name; \<open>undefined\<close> (\<open>None\<close>) without an
  \<open>abi\<close> or without such a function.
\<close>

definition orderedArgNames :: "'ty Contract \<Rightarrow> 'ty FunctionFragment \<Rightarrow> string list option" where
  "orderedArgNames this func =
     (case abi (contract_interface this) of
        None \<Rightarrow> None
      | Some a \<Rightarrow>
         (case find (\<lambda>fn. fn_name fn = frag_name func) (abi_functions a) of
            None \<Rightarrow> None
          | Some abiFunction \<Rightarrow> Some (map arg_name (fn_inputs abiFunction))))"

text \<open>
  \<open>Array.prototype.sort\<close> with the comparator
  \<open>(a, b) => names.indexOf(a[0]) - names.indexOf(b[0])\<close> is a stable sort on the key
  \<open>names.indexOf(entry[0])\<close>. With \<open>orderedArgNames\<close> undefined the comparator throws
  a \<open>TypeError\<close>; it is called only when there are two entries or more to compare.
\<close>

definition mapObjIntoArgsArray ::
  "'ty Contract \<Rightarrow> 'ty FunctionFragment \<Rightarrow> (string \<times> 'v) list option \<Rightarrow> error + 'v list" where
  "mapObjIntoArgsArray this func obj =
     (case obj of
        None \<Rightarrow> Inr []
      | Some entries \<Rightarrow>
         (case orderedArgNames this func of
            None \<Rightarrow> if length entries < 2 then Inr (map snd entries) else Inl TypeError
          | Some names \<Rightarrow>
              Inr (map snd (sort_key (\<lambda>e. indexOf names (fst e)) entries))))"

text \<open>
  The argument of the function that \<open>buildFunction\<close> returns: an array, an object or
  \<open>undefined\<close>.
\<close>

datatype 'v args = ArrayArgs "'v list" | ObjectArgs "(string \<times> 'v) list" | UndefinedArgs

record ('ty, 'v) FunctionInvocationScope =
  scope_program :: "'ty Contract"
  scope_func :: "'ty FunctionFragment"
  scope_args :: "'v list"
  scope_callData :: bytes

text \<open>
  Modelled from the spec: the constructor of \<open>FunctionInvocationScope\<close> is imported from
  \<open>./functions/invocation-scope\<close>, which is not among the sources. The specification
  says of it (4.5): "construct from (target, fragment, rawArgs); internally calls
  Argument Resolver, then encodes the ArgumentVector via the external codec into call
  data", and "any Argument Resolver or codec failure propagates unchanged"; and of the
  resolver on an ordered sequence (4.2): "pass through unchanged except for arity
  validation: length must equal fragment.params.length; mismatch fails with
  ArityMismatch". \<open>encodeArguments func as\<close> stands for the external codec on the
  fragment's parameter types.
\<close>

definition FunctionInvocationScope_constructor ::
  "('ty FunctionFragment \<Rightarrow> 'v list \<Rightarrow> error + bytes) \<Rightarrow> 'ty Contract \<Rightarrow>
   'ty FunctionFragment \<Rightarrow> 'v list \<Rightarrow> error + ('ty, 'v) FunctionInvocationScope" where
  "FunctionInvocationScope_constructor encodeArguments program func as =
     (if length as \<noteq> length (frag_inputs func) then Inl ArityMismatch
      else (case encodeArguments func as of
              Inl e \<Rightarrow> Inl e
            | Inr callData \<Rightarrow>
                Inr \<lparr>scope_program = program, scope_func = func, scope_args = as,
                     scope_callData = callData\<rparr>))"

definition buildFunction ::
  "('ty FunctionFragment \<Rightarrow> 'v list \<Rightarrow> error + bytes) \<Rightarrow> 'ty Contract \<Rightarrow>
   'ty FunctionFragment \<Rightarrow> 'v args \<Rightarrow> error + ('ty, 'v) FunctionInvocationScope" where
  "buildFunction encodeArguments this func as =
     (case as of
        ArrayArgs a \<Rightarrow> FunctionInvocationScope_constructor encodeArguments this func a
      | ObjectArgs obj \<Rightarrow>
         (case mapObjIntoArgsArray this func (Some obj) of
            Inl e \<Rightarrow> Inl e
          | Inr a \<Rightarrow> FunctionInvocationScope_constructor encodeArguments this func a)
      | UndefinedArgs \<Rightarrow>
         (case mapObjIntoArgsArray this func None of
            Inl e \<Rightarrow> Inl e
          | Inr a \<Rightarrow> FunctionInvocationScope_constructor encodeArguments this func a))"

section \<open>The root function, as the specification describes it\<close>

text \<open>
  Modelled from the spec: \<open>getContractRoot\<close> is imported from \<open>./utils\<close>, which is not
  among the sources. The specification says of the root: "identical bytecode+chainId
  always yields identical identity; changing either changes the identity". The first
  half holds of every function; the second half is the property below.
\<close>

definition collision_free :: "(bytes \<Rightarrow> int \<Rightarrow> 'h) \<Rightarrow> bool" where
  "collision_free root \<longleftrightarrow> (\<forall>b c b' c'. root b c = root b' c' \<longrightarrow> b = b' \<and> c = c')"

section \<open>Concrete instances\<close>

text \<open>
  A small coder for the concrete instances: an ABI type is its width in bytes, a value
  is one byte, and the encoding is the value padded on the left to the width.
\<close>

definition example_encode :: "nat \<Rightarrow> byte \<Rightarrow> bytes option" where
  "example_encode width v = (if width = 0 then None else Some (replicate (width - 1) 0 @ [v]))"

definition fee_interface :: "nat Interface" where
  "fee_interface =
     \<lparr>fragments = [\<lparr>frag_name = ''main'',
                      frag_inputs = [\<lparr>arg_name = ''amount'', arg_type = 8\<rparr>]\<rparr>],
      configurables = [(''x'', \<lparr>fragmentType = 1, offset = 0\<rparr>),
                       (''fee'', \<lparr>fragmentType = 8, offset = 40\<rparr>)],
      abi = None\<rparr>"

definition transfer_inputs :: "nat JsonAbiFragmentType list" where
  "transfer_inputs = [\<lparr>arg_name = ''to'', arg_type = 32\<rparr>,
                      \<lparr>arg_name = ''amount'', arg_type = 8\<rparr>]"

definition transfer_fragment :: "nat FunctionFragment" where
  "transfer_fragment = \<lparr>frag_name = ''transfer'', frag_inputs = transfer_inputs\<rparr>"

definition transfer_contract :: "nat Contract" where
  "transfer_contract =
     \<lparr>contract_id = ''0x01'',
      contract_interface =
        \<lparr>fragments = [transfer_fragment],
         configurables = [],
         abi = Some \<lparr>abi_functions =
                 [\<lparr>fn_name = ''transfer'', fn_inputs = transfer_inputs\<rparr>]\<rparr>\<rparr>\<rparr>"

text \<open>
  A coder of call data for the concrete instances: each argument must fit one byte.
\<close>

definition example_encodeArguments :: "nat FunctionFragment \<Rightarrow> nat list \<Rightarrow> error + bytes" where
  "example_encodeArguments func as =
     (if list_all (\<lambda>v. v < 256) as then Inr (map of_nat as) else Inl EncodingError)"

text \<open>
  \<open>hexlify\<close> of \<open>@ethersproject/bytes\<close> on a string, for the concrete instances: a
  string \<open>0x\<close> followed by an even number of hexadecimal digits is returned in lower
  case; on any other string \<open>hexlify\<close> throws.
\<close>

definition is_hex_digit :: "char \<Rightarrow> bool" where
  "is_hex_digit c \<longleftrightarrow> c \<in> set ''0123456789abcdefABCDEF''"

definition hex_lower :: "char \<Rightarrow> char" where
  "hex_lower c =
     (if c = CHR ''A'' then CHR ''a'' else if c = CHR ''B'' then CHR ''b''
      else if c = CHR ''C'' then CHR ''c'' else if c = CHR ''D'' then CHR ''d''
      else if c = CHR ''E'' then CHR ''e'' else if c = CHR ''F'' then CHR ''f'' else c)"

fun hexlify_string :: "string \<Rightarrow> string option" where
  "hexlify_string (a # b # ds) =
     (if a = CHR ''0'' \<and> b = CHR ''x'' \<and> list_all is_hex_digit ds \<and> even (length ds)
      then Some (a # b # map hex_lower ds) else None)"
| "hexlify_string s = None"

definition example_predicate :: "(nat, string) Predicate" where
  "example_predicate =
     \<lparr>address = ''0xaa'', bytes = [1, 2], jsonAbi = [], predicateData = [3],
      interface = None, isBuiltByFuelFactory = False\<rparr>"

definition example_request :: "(string, unit, unit) TransactionRequest" where
  "example_request =
     \<lparr>inputs = Some
        [CoinInput \<lparr>owner = ''0xaa'', predicate = None, input_predicateData = None,
                     coin_fields = ()\<rparr>,
         CoinInput \<lparr>owner = ''0xbb'', predicate = None, input_predicateData = None,
                     coin_fields = ()\<rparr>,
         ContractInput ()],
      request_fields = ()\<rparr>"

definition malformed_request :: "(string, unit, unit) TransactionRequest" where
  "malformed_request =
     \<lparr>inputs = Some
        [CoinInput \<lparr>owner = ''0xaa'', predicate = None, input_predicateData = None,
                     coin_fields = ()\<rparr>,
         CoinInput \<lparr>owner = ''not-hex'', predicate = None, input_predicateData = None,
                     coin_fields = ()\<rparr>],
      request_fields = ()\<rparr>"

section \<open>Auxiliary facts\<close>

subsection \<open>Writing into the buffer\<close>

lemma three_slices: "take a xs @ take b (drop a xs) @ drop (a + b) xs = xs"
  by (metis add.commute append_take_drop_id drop_drop)

lemma typedArray_set_length:
  "typedArray_set target source off = Some written \<Longrightarrow> length written = length target"
  by (auto simp: typedArray_set_def split: if_splits)

lemma get_property_own: "map_of obj key = Some c \<Longrightarrow> get_property obj key = OwnProperty c"
  by (simp add: get_property_def)

lemma get_property_undefined:
  "map_of obj key = None \<Longrightarrow> key \<notin> set Object_prototype_names \<Longrightarrow>
   get_property obj key = Undefined"
  by (simp add: get_property_def)

lemma get_property_not_own:
  "map_of obj key = None \<Longrightarrow> get_property obj key \<noteq> OwnProperty c"
  by (simp add: get_property_def)

lemma forEach_entries_length:
  "(forEach_entries encode cfgs entries buf = Inr b \<longrightarrow> length b = length buf) \<and>
   (forEach_entries encode cfgs entries buf = Inl (c, b) \<longrightarrow> length b = length buf)"
proof (induction entries arbitrary: buf)
  case Nil
  show ?case by auto
next
  case (Cons e entries)
  obtain key val where e: "e = (key, val)" by (cases e)
  show ?case
  proof (cases "get_property cfgs key")
    case Undefined
    then show ?thesis by (auto simp: e)
  next
    case InheritedProperty
    then show ?thesis by (auto simp: e)
  next
    case (OwnProperty cf)
    show ?thesis
    proof (cases "encode (fragmentType cf) val")
      case None
      with OwnProperty show ?thesis by (auto simp: e)
    next
      case enc: (Some encoded)
      show ?thesis
      proof (cases "typedArray_set buf encoded (offset cf)")
        case None
        with OwnProperty enc show ?thesis by (auto simp: e)
      next
        case w: (Some written)
        from typedArray_set_length[OF w] have "length written = length buf" .
        with Cons.IH[of written] OwnProperty enc w show ?thesis by (simp add: e)
      qed
    qed
  qed
qed

lemma forEach_entries_append:
  "forEach_entries encode cfgs (pre @ post) buf =
     (case forEach_entries encode cfgs pre buf of
        Inl e \<Rightarrow> Inl e
      | Inr b \<Rightarrow> forEach_entries encode cfgs post b)"
proof (induction pre arbitrary: buf)
  case Nil
  show ?case by simp
next
  case (Cons e pre)
  obtain key val where e: "e = (key, val)" by (cases e)
  show ?case
    by (simp add: e Cons.IH split: option.splits property.splits)
qed

lemma forEach_entries_unknown_fails:
  "key \<in> fst ` set entries \<Longrightarrow> map_of cfgs key = None \<Longrightarrow>
   \<exists>c b. forEach_entries encode cfgs entries buf = Inl (c, b)"
proof (induction entries arbitrary: buf)
  case Nil
  then show ?case by simp
next
  case (Cons e entries)
  obtain k val where e: "e = (k, val)" by (cases e)
  show ?case
  proof (cases "k = key")
    case True
    with Cons.prems(2) show ?thesis
      by (cases "get_property cfgs key") (auto simp: e get_property_not_own)
  next
    case False
    with Cons.prems have "key \<in> fst ` set entries" by (auto simp: e)
    from Cons.IH[OF this Cons.prems(2)] show ?thesis
      by (auto simp: e split: option.splits property.splits)
  qed
qed

subsection \<open>Processing the inputs of a request\<close>

lemma populate_input_type:
  "populate_input hexlify toB256 this input = Inr out \<Longrightarrow> input_type out = input_type input"
  by (cases input) (auto split: option.splits if_splits)

lemma forEach_inputs_returns:
  assumes "\<forall>c. CoinInput c \<in> set ins \<longrightarrow> hexlify (owner c) \<noteq> None"
  shows "\<exists>outs. forEach_inputs hexlify toB256 this ins = Inr outs
           \<and> length outs = length ins
           \<and> (\<forall>i < length ins. populate_input hexlify toB256 this (ins ! i) = Inr (outs ! i))"
  using assms
proof (induction ins)
  case Nil
  show ?case by simp
next
  case (Cons input ins)
  then have "\<forall>c. CoinInput c \<in> set ins \<longrightarrow> hexlify (owner c) \<noteq> None" by simp
  from Cons.IH[OF this] obtain outs where
    r: "forEach_inputs hexlify toB256 this ins = Inr outs"
    and len: "length outs = length ins"
    and each: "\<forall>i < length ins. populate_input hexlify toB256 this (ins ! i) = Inr (outs ! i)"
    by blast
  have "\<exists>out. populate_input hexlify toB256 this input = Inr out"
  proof (cases input)
    case (CoinInput c)
    with Cons.prems have "hexlify (owner c) \<noteq> None" by simp
    with CoinInput show ?thesis by auto
  qed simp_all
  then obtain out where out: "populate_input hexlify toB256 this input = Inr out" by blast
  have "forEach_inputs hexlify toB256 this (input # ins) = Inr (out # outs)"
    using r out by simp
  moreover have "length (out # outs) = length (input # ins)" using len by simp
  moreover have "\<forall>i < length (input # ins).
      populate_input hexlify toB256 this ((input # ins) ! i) = Inr ((out # outs) ! i)"
    using each out by (auto simp: nth_Cons split: nat.splits)
  ultimately show ?case by blast
qed

subsection \<open>Sorting entries by declared position\<close>

lemma indexOf_from_notin: "x \<notin> set xs \<Longrightarrow> indexOf_from k xs x = - 1"
  by (induction xs arbitrary: k) auto

lemma indexOf_from_ge: "x \<in> set xs \<Longrightarrow> k \<le> indexOf_from k xs x"
proof (induction xs arbitrary: k)
  case Nil
  then show ?case by simp
next
  case (Cons y ys)
  show ?case
  proof (cases "y = x")
    case True
    then show ?thesis by simp
  next
    case False
    with Cons.prems have "x \<in> set ys" by simp
    from Cons.IH[OF this, of "k + 1"] False show ?thesis by simp
  qed
qed

lemma indexOf_from_inj:
  "x \<in> set xs \<Longrightarrow> 0 \<le> k \<Longrightarrow> indexOf_from k xs x = indexOf_from k xs y \<Longrightarrow> x = y"
proof (induction xs arbitrary: k)
  case Nil
  then show ?case by simp
next
  case (Cons z zs)
  show ?case
  proof (cases "z = x")
    case zx: True
    show ?thesis
    proof (cases "z = y")
      case True
      with zx show ?thesis by simp
    next
      case False
      with zx Cons.prems(3) have eq: "indexOf_from (k + 1) zs y = k" by simp
      show ?thesis
      proof (cases "y \<in> set zs")
        case True
        from indexOf_from_ge[OF this, of "k + 1"] eq show ?thesis by simp
      next
        case False
        from indexOf_from_notin[OF this, of "k + 1"] eq Cons.prems(2) show ?thesis by simp
      qed
    qed
  next
    case zx: False
    with Cons.prems(1) have xin: "x \<in> set zs" by simp
    show ?thesis
    proof (cases "z = y")
      case True
      with zx Cons.prems(3) have "indexOf_from (k + 1) zs x = k" by simp
      with indexOf_from_ge[OF xin, of "k + 1"] show ?thesis by simp
    next
      case False
      with zx Cons.prems(3)
      have "indexOf_from (k + 1) zs x = indexOf_from (k + 1) zs y" by simp
      with Cons.IH[OF xin, of "k + 1"] Cons.prems(2) show ?thesis by simp
    qed
  qed
qed

lemma sorted_indexOf_from: "distinct xs \<Longrightarrow> sorted (map (indexOf_from k xs) xs)"
proof (induction xs arbitrary: k)
  case Nil
  show ?case by simp
next
  case (Cons y ys)
  then have d: "distinct ys" and ny: "y \<notin> set ys" by simp_all
  have eq: "map (indexOf_from k (y # ys)) ys = map (indexOf_from (k + 1) ys) ys"
    using ny by auto
  have "\<forall>x \<in> set ys. k \<le> indexOf_from (k + 1) ys x"
    using indexOf_from_ge[of _ ys "k + 1"] by force
  with Cons.IH[OF d, of "k + 1"] show ?case
    unfolding list.map eq by simp
qed

lemma indexOf_notin_iff: "indexOf xs x = - 1 \<longleftrightarrow> x \<notin> set xs"
  using indexOf_from_notin[of x xs 0] indexOf_from_ge[of x xs 0]
  by (auto simp: indexOf_def)

lemma indexOf_notin_iff': "- 1 = indexOf xs x \<longleftrightarrow> x \<notin> set xs"
  using indexOf_notin_iff[of xs x] by auto

lemma indexOf_inj: "x \<in> set xs \<Longrightarrow> indexOf xs x = indexOf xs y \<Longrightarrow> x = y"
  using indexOf_from_inj[of x xs 0 y] by (simp add: indexOf_def)

lemma indexOf_nonneg: "x \<in> set xs \<Longrightarrow> 0 \<le> indexOf xs x"
  using indexOf_from_ge[of x xs 0] by (simp add: indexOf_def)

lemma sorted_indexOf: "distinct xs \<Longrightarrow> sorted (map (indexOf xs) (filter P xs))"
proof -
  assume "distinct xs"
  then have "sorted (map (indexOf_from 0 xs) xs)" by (rule sorted_indexOf_from)
  then have "sorted (map (indexOf_from 0 xs) (filter P xs))" by (rule sorted_filter)
  moreover have "indexOf xs = indexOf_from 0 xs" by (rule ext) (simp add: indexOf_def)
  ultimately show ?thesis by simp
qed

lemma filter_fst_single:
  "distinct (map fst es) \<Longrightarrow> (k, v) \<in> set es \<Longrightarrow> filter (\<lambda>e. fst e = k) es = [(k, v)]"
proof (induction es)
  case Nil
  then show ?case by simp
next
  case (Cons e es)
  show ?case
  proof (cases "e = (k, v)")
    case True
    with Cons.prems(1) have "\<forall>e' \<in> set es. fst e' \<noteq> k" by force
    then have "filter (\<lambda>e. fst e = k) es = []" by (simp add: filter_empty_conv)
    with True show ?thesis by simp
  next
    case False
    with Cons.prems have "(k, v) \<in> set es" by simp
    then have "k \<in> fst ` set es" by force
    with Cons.prems(1) have "fst e \<noteq> k" by auto
    with Cons.IH \<open>(k, v) \<in> set es\<close> Cons.prems(1) show ?thesis by simp
  qed
qed

lemma filter_eq_single: "distinct xs \<Longrightarrow> p \<in> set xs \<Longrightarrow> filter (\<lambda>q. q = p) xs = [p]"
  by (induction xs) (auto simp: filter_empty_conv)

lemma mset_filter_split: "mset (filter (\<lambda>x. \<not> P x) xs) + mset (filter P xs) = mset xs"
  by (induction xs) simp_all

lemma sort_entries:
  fixes entries :: "(string \<times> 'v) list"
  assumes dn: "distinct names" and de: "distinct (map fst entries)"
  shows "sort_key (\<lambda>e. indexOf names (fst e)) entries =
           filter (\<lambda>e. fst e \<notin> set names) entries @
           map (\<lambda>p. (p, the (map_of entries p))) (filter (\<lambda>p. p \<in> fst ` set entries) names)"
    (is "sort_key ?f entries = ?U @ ?D")
proof (rule properties_for_sort_key)
  let ?g = "\<lambda>p. (p, the (map_of entries p))"
  let ?present = "filter (\<lambda>p. p \<in> fst ` set entries) names"
  have dent: "distinct entries" using de by (rule distinct_map[THEN iffD1, THEN conjunct1])
  have mem: "(k, v) \<in> set entries \<longleftrightarrow> map_of entries k = Some v" for k v
    using de by (auto dest: map_of_SomeD)
  have setD: "set ?D = {e \<in> set entries. fst e \<in> set names}"
  proof (intro set_eqI iffI)
    fix e assume "e \<in> set ?D"
    then obtain p where p: "p \<in> set names" "p \<in> fst ` set entries" "e = ?g p" by auto
    from p(2) obtain v where "(p, v) \<in> set entries" by auto
    with mem have "map_of entries p = Some v" by simp
    with p \<open>(p, v) \<in> set entries\<close> show "e \<in> {e \<in> set entries. fst e \<in> set names}" by simp
  next
    fix e assume "e \<in> {e \<in> set entries. fst e \<in> set names}"
    then have e: "e \<in> set entries" "fst e \<in> set names" by simp_all
    obtain k v where kv: "e = (k, v)" by (cases e)
    with e mem have "map_of entries k = Some v" by simp
    with e kv show "e \<in> set ?D" by force
  qed
  have dD: "distinct ?D"
    using dn by (auto simp: distinct_map inj_on_def)
  have "mset ?D = mset (filter (\<lambda>e. fst e \<in> set names) entries)"
    using dD dent setD by (intro set_eq_iff_mset_eq_distinct[THEN iffD1]) auto
  then show "mset (?U @ ?D) = mset entries"
    using mset_filter_split[of "\<lambda>e. fst e \<in> set names" entries] by (simp only: mset_append)
  have "map ?f ?D = map (indexOf names) ?present" by simp
  then have sD: "sorted (map ?f ?D)"
    using sorted_indexOf[OF dn, of "\<lambda>p. p \<in> fst ` set entries"] by (simp only:)
  have "?U = filter (\<lambda>e. ?f e = - 1) entries"
    by (simp add: indexOf_notin_iff)
  then have sU: "sorted (map ?f ?U)"
    using sorted_map_same[of ?f "\<lambda>_. - 1" entries] by (simp only:)
  have "\<forall>e \<in> set ?U. ?f e = - 1" by (simp add: indexOf_notin_iff)
  moreover have "\<forall>e \<in> set ?D. - 1 \<le> ?f e" using indexOf_nonneg[of _ names] by force
  ultimately show "sorted (map ?f (?U @ ?D))"
    using sD sU by (auto simp: sorted_append)
  show "filter (\<lambda>x. ?f k = ?f x) (?U @ ?D) = filter (\<lambda>x. ?f k = ?f x) entries"
    if "k \<in> set (?U @ ?D)" for k
  proof (cases "fst k \<in> set names")
    case False
    then have fk: "?f k = - 1" by (simp add: indexOf_notin_iff)
    have "filter (\<lambda>x. ?f k = ?f x) ?D = []"
      unfolding fk by (auto simp: filter_empty_conv indexOf_notin_iff')
    moreover have "filter (\<lambda>x. ?f k = ?f x) ?U = filter (\<lambda>x. ?f k = ?f x) entries"
      unfolding fk by (auto intro!: filter_cong simp: indexOf_notin_iff')
    ultimately show ?thesis by simp
  next
    case True
    with that have kD: "k \<in> set ?D" by auto
    then have kin: "k \<in> set entries" using setD by simp
    have eqk: "?f k = ?f x \<longleftrightarrow> fst x = fst k" for x
      using indexOf_inj[OF True, of "fst x"] by auto
    have "filter (\<lambda>x. ?f k = ?f x) ?U = []"
      using True by (auto simp: filter_empty_conv eqk)
    moreover have "filter (\<lambda>x. ?f k = ?f x) entries = [k]"
      unfolding eqk using filter_fst_single[OF de, of "fst k" "snd k"] kin by simp
    moreover have "filter (\<lambda>x. ?f k = ?f x) ?D = [k]"
    proof -
      have "filter (\<lambda>x. fst x = fst k) ?D = map ?g (filter (\<lambda>q. q = fst k) ?present)"
        by (simp add: filter_map comp_def)
      also have "filter (\<lambda>q. q = fst k) ?present = [fst k]"
      proof (rule filter_eq_single)
        show "distinct ?present" using dn by simp
        from kD obtain p where "p \<in> set names" "p \<in> fst ` set entries" "k = ?g p" by auto
        then show "fst k \<in> set ?present" by simp
      qed
      also have "map ?g [fst k] = [k]" using kD by auto
      finally show ?thesis unfolding eqk .
    qed
    ultimately show ?thesis by simp
  qed
qed

lemma map_of_present:
  "distinct (map fst es) \<Longrightarrow> set es' = set es \<Longrightarrow> distinct (map fst es') \<Longrightarrow>
   map_of es' = map_of es"
  by (simp add: map_of_inject_set)

lemma no_unknown_filter:
  "fst ` set es \<subseteq> set names \<Longrightarrow> filter (\<lambda>e. fst e \<notin> set names) es = []"
  by (auto simp: filter_empty_conv)

lemma all_present_filter:
  "set names \<subseteq> fst ` set es \<Longrightarrow> filter (\<lambda>p. p \<in> fst ` set es) names = names"
  by (auto simp: filter_id_conv)

lemma mapObjIntoArgsArray_sorted:
  assumes "orderedArgNames this func = Some names"
    and "distinct names" and "distinct (map fst entries)"
  shows "mapObjIntoArgsArray this func (Some entries) =
           Inr (map snd (filter (\<lambda>e. fst e \<notin> set names) entries) @
                map (\<lambda>p. the (map_of entries p))
                  (filter (\<lambda>p. p \<in> fst ` set entries) names))"
  using assms(1) sort_entries[OF assms(2,3)]
  by (simp add: mapObjIntoArgsArray_def comp_def)

section \<open>Claims about contract.ts\<close>

text \<open>
  C1 (amended). For a fragment with pairwise distinct parameter names, found by name in
  the interface's ABI, and a named-argument mapping that covers all of the declared
  parameters: the resolved vector is the values of the keys that are no declared
  parameter, in entry order, followed by the values of the declared parameters in
  declared order. When the keys are exactly the declared names, the vector is the
  declared-order vector, whatever the entry order of the mapping.
\<close>

theorem mapObjIntoArgsArray_declared_order:
  assumes "orderedArgNames this func = Some (map arg_name (frag_inputs func))"
    and "distinct (map arg_name (frag_inputs func))"
    and "distinct (map fst entries)"
    and "set (map arg_name (frag_inputs func)) \<subseteq> fst ` set entries"
  shows "mapObjIntoArgsArray this func (Some entries) =
           Inr (map snd (filter (\<lambda>e. fst e \<notin> set (map arg_name (frag_inputs func))) entries) @
                map (\<lambda>p. the (map_of entries p)) (map arg_name (frag_inputs func)))
       \<and> (fst ` set entries = set (map arg_name (frag_inputs func)) \<longrightarrow>
            (\<forall>entries'. distinct (map fst entries') \<and> set entries' = set entries \<longrightarrow>
               mapObjIntoArgsArray this func (Some entries') =
                 Inr (map (\<lambda>p. the (map_of entries p)) (map arg_name (frag_inputs func)))))"
proof (intro conjI impI allI)
  let ?names = "map arg_name (frag_inputs func)"
  show "mapObjIntoArgsArray this func (Some entries) =
           Inr (map snd (filter (\<lambda>e. fst e \<notin> set ?names) entries) @
                map (\<lambda>p. the (map_of entries p)) ?names)"
    using mapObjIntoArgsArray_sorted[OF assms(1,2,3)] all_present_filter[OF assms(4)]
    by simp
next
  let ?names = "map arg_name (frag_inputs func)"
  fix entries' :: "(string \<times> 'b) list"
  assume exact: "fst ` set entries = set ?names"
    and e': "distinct (map fst entries') \<and> set entries' = set entries"
  then have cover: "set ?names \<subseteq> fst ` set entries'"
    and known: "fst ` set entries' \<subseteq> set ?names" by simp_all
  have "map_of entries' = map_of entries"
    using e' assms(3) by (intro map_of_present) simp_all
  then show "mapObjIntoArgsArray this func (Some entries') =
               Inr (map (\<lambda>p. the (map_of entries p)) ?names)"
    using mapObjIntoArgsArray_sorted[OF assms(1,2), of entries'] e'
      all_present_filter[OF cover] no_unknown_filter[OF known]
    by simp
qed

theorem mapObjIntoArgsArray_declared_order_witness:
  "orderedArgNames transfer_contract transfer_fragment
     = Some (map arg_name (frag_inputs transfer_fragment))
   \<and> distinct (map arg_name (frag_inputs transfer_fragment))
   \<and> distinct (map fst [(''amount'', 500::nat), (''to'', 1)])
   \<and> set (map arg_name (frag_inputs transfer_fragment))
        \<subseteq> fst ` set [(''amount'', 500::nat), (''to'', 1)]
   \<and> mapObjIntoArgsArray transfer_contract transfer_fragment
        (Some [(''amount'', 500::nat), (''to'', 1)]) = Inr [1, 500]
   \<and> mapObjIntoArgsArray transfer_contract transfer_fragment
        (Some [(''to'', 1::nat), (''amount'', 500)]) = Inr [1, 500]"
proof -
  let ?es = "[(''amount'', 500::nat), (''to'', 1)]"
  let ?es' = "[(''to'', 1::nat), (''amount'', 500)]"
  have h1: "orderedArgNames transfer_contract transfer_fragment
              = Some (map arg_name (frag_inputs transfer_fragment))"
    by (simp add: orderedArgNames_def transfer_contract_def transfer_fragment_def)
  have h2: "distinct (map arg_name (frag_inputs transfer_fragment))"
    by (simp add: transfer_fragment_def transfer_inputs_def)
  have h3: "distinct (map fst ?es)" by simp
  have h4: "set (map arg_name (frag_inputs transfer_fragment)) \<subseteq> fst ` set ?es"
    by (simp add: transfer_fragment_def transfer_inputs_def)
  have exact: "fst ` set ?es = set (map arg_name (frag_inputs transfer_fragment))"
    by (auto simp: transfer_fragment_def transfer_inputs_def)
  have perm: "distinct (map fst ?es') \<and> set ?es' = set ?es" by auto
  note inst = mapObjIntoArgsArray_declared_order[OF h1 h2 h3 h4]
  from inst have a: "mapObjIntoArgsArray transfer_contract transfer_fragment (Some ?es)
                      = Inr [1, 500]"
    by (simp add: transfer_fragment_def transfer_inputs_def)
  from inst exact perm
  have "mapObjIntoArgsArray transfer_contract transfer_fragment (Some ?es') =
          Inr (map (\<lambda>p. the (map_of ?es p)) (map arg_name (frag_inputs transfer_fragment)))"
    by blast
  then have b: "mapObjIntoArgsArray transfer_contract transfer_fragment (Some ?es')
                  = Inr [1, 500]"
    by (simp add: transfer_fragment_def transfer_inputs_def)
  from h1 h2 h3 h4 a b show ?thesis by blast
qed

text \<open>
  The claim as stated fails for a mapping that covers the declared parameters and has
  one more key: the value of \<open>memo\<close> is put in front, so the vector is not the
  declared-order vector \<open>[1, 500]\<close>. With two more keys the vector also depends on the
  entry order: the same four entries, entered in two orders, give two vectors.
\<close>

theorem mapObjIntoArgsArray_extra_key_counterexample:
  "set (map arg_name (frag_inputs transfer_fragment))
     \<subseteq> fst ` set [(''amount'', 500::nat), (''memo'', 7), (''to'', 1)]
   \<and> mapObjIntoArgsArray transfer_contract transfer_fragment
        (Some [(''amount'', 500::nat), (''memo'', 7), (''to'', 1)]) = Inr [7, 1, 500]
   \<and> mapObjIntoArgsArray transfer_contract transfer_fragment
        (Some [(''amount'', 500::nat), (''memo'', 7), (''to'', 1)]) \<noteq> Inr [1, 500]
   \<and> set [(''memo'', 7::nat), (''note'', 8), (''to'', 1), (''amount'', 500)]
       = set [(''note'', 8), (''memo'', 7), (''to'', 1), (''amount'', 500)]
   \<and> mapObjIntoArgsArray transfer_contract transfer_fragment
        (Some [(''memo'', 7::nat), (''note'', 8), (''to'', 1), (''amount'', 500)])
       = Inr [7, 8, 1, 500]
   \<and> mapObjIntoArgsArray transfer_contract transfer_fragment
        (Some [(''note'', 8::nat), (''memo'', 7), (''to'', 1), (''amount'', 500)])
       = Inr [8, 7, 1, 500]"
proof -
  have a: "mapObjIntoArgsArray transfer_contract transfer_fragment
             (Some [(''amount'', 500::nat), (''memo'', 7), (''to'', 1)]) = Inr [7, 1, 500]"
    by (simp add: mapObjIntoArgsArray_def orderedArgNames_def transfer_contract_def
        transfer_fragment_def transfer_inputs_def indexOf_def)
  have b: "mapObjIntoArgsArray transfer_contract transfer_fragment
             (Some [(''memo'', 7::nat), (''note'', 8), (''to'', 1), (''amount'', 500)])
           = Inr [7, 8, 1, 500]"
    by (simp add: mapObjIntoArgsArray_def orderedArgNames_def transfer_contract_def
        transfer_fragment_def transfer_inputs_def indexOf_def)
  have c: "mapObjIntoArgsArray transfer_contract transfer_fragment
             (Some [(''note'', 8::nat), (''memo'', 7), (''to'', 1), (''amount'', 500)])
           = Inr [8, 7, 1, 500]"
    by (simp add: mapObjIntoArgsArray_def orderedArgNames_def transfer_contract_def
        transfer_fragment_def transfer_inputs_def indexOf_def)
  have d: "set [(''memo'', 7::nat), (''note'', 8), (''to'', 1), (''amount'', 500)]
           = set [(''note'', 8), (''memo'', 7), (''to'', 1), (''amount'', 500)]"
    by auto
  have e: "set (map arg_name (frag_inputs transfer_fragment))
             \<subseteq> fst ` set [(''amount'', 500::nat), (''memo'', 7), (''to'', 1)]"
    by (simp add: transfer_fragment_def transfer_inputs_def)
  from a b c d e show ?thesis by simp
qed

text \<open>
  C6. For every fragment and every positional argument sequence, \<open>buildFunction\<close> hands
  the sequence as it is to the constructor of the invocation scope. With that
  constructor as the specification describes it, a sequence as long as the fragment's
  parameter list passes through unchanged: it is the argument vector of the scope,
  encoded by the codec, whose failure propagates unchanged. A sequence of any other
  length fails with the arity mismatch.
\<close>

theorem buildFunction_array_arity:
  "(length a = length (frag_inputs func) \<longrightarrow>
      (\<forall>callData. encodeArguments func a = Inr callData \<longrightarrow>
         buildFunction encodeArguments this func (ArrayArgs a) =
           Inr \<lparr>scope_program = this, scope_func = func, scope_args = a,
                scope_callData = callData\<rparr>)
    \<and> (\<forall>e. encodeArguments func a = Inl e \<longrightarrow>
         buildFunction encodeArguments this func (ArrayArgs a) = Inl e))
   \<and> (length a \<noteq> length (frag_inputs func) \<longrightarrow>
        buildFunction encodeArguments this func (ArrayArgs a) = Inl ArityMismatch)"
  by (simp add: buildFunction_def FunctionInvocationScope_constructor_def)

theorem buildFunction_array_arity_witness:
  "length [1, 5 :: nat] = length (frag_inputs transfer_fragment)
   \<and> example_encodeArguments transfer_fragment [1, 5] = Inr [1, 5]
   \<and> buildFunction example_encodeArguments transfer_contract transfer_fragment
        (ArrayArgs [1, 5]) =
       Inr \<lparr>scope_program = transfer_contract, scope_func = transfer_fragment,
            scope_args = [1, 5], scope_callData = [1, 5]\<rparr>
   \<and> length [1, 500 :: nat] = length (frag_inputs transfer_fragment)
   \<and> example_encodeArguments transfer_fragment [1, 500] = Inl EncodingError
   \<and> buildFunction example_encodeArguments transfer_contract transfer_fragment
        (ArrayArgs [1, 500]) = Inl EncodingError
   \<and> length [5 :: nat] \<noteq> length (frag_inputs transfer_fragment)
   \<and> buildFunction example_encodeArguments transfer_contract transfer_fragment
        (ArrayArgs [5]) = Inl ArityMismatch"
proof -
  have l2: "length [1, 5 :: nat] = length (frag_inputs transfer_fragment)"
    and l2': "length [1, 500 :: nat] = length (frag_inputs transfer_fragment)"
    and l1: "length [5 :: nat] \<noteq> length (frag_inputs transfer_fragment)"
    by (simp_all add: transfer_fragment_def transfer_inputs_def)
  have ok: "example_encodeArguments transfer_fragment [1, 5] = Inr [1, 5]"
    by (simp add: example_encodeArguments_def)
  have bad: "example_encodeArguments transfer_fragment [1, 500] = Inl EncodingError"
    by (simp add: example_encodeArguments_def)
  from buildFunction_array_arity[of "[1, 5]" transfer_fragment example_encodeArguments
      transfer_contract] l2 ok
  have a: "buildFunction example_encodeArguments transfer_contract transfer_fragment
             (ArrayArgs [1, 5]) =
           Inr \<lparr>scope_program = transfer_contract, scope_func = transfer_fragment,
                scope_args = [1, 5], scope_callData = [1, 5]\<rparr>"
    by blast
  from buildFunction_array_arity[of "[1, 500]" transfer_fragment example_encodeArguments
      transfer_contract] l2' bad
  have b: "buildFunction example_encodeArguments transfer_contract transfer_fragment
             (ArrayArgs [1, 500]) = Inl EncodingError"
    by blast
  from buildFunction_array_arity[of "[5]" transfer_fragment example_encodeArguments
      transfer_contract] l1
  have c: "buildFunction example_encodeArguments transfer_contract transfer_fragment
             (ArrayArgs [5]) = Inl ArityMismatch"
    by blast
  from l2 l2' l1 ok bad a b c show ?thesis by blast
qed

text \<open>
  C7 (amended). For a fragment found by name in the interface's ABI, resolving a
  named-argument mapping never fails: the result has one value for each entry of the
  mapping. With pairwise distinct parameter names it is the values of the keys that are
  no declared parameter, in entry order, followed by the values of the declared
  parameters that have a key, in declared order; a declared parameter without a key
  contributes nothing.
\<close>

theorem mapObjIntoArgsArray_never_rejects:
  assumes "orderedArgNames this func = Some names"
  shows "(\<exists>vs. mapObjIntoArgsArray this func (Some entries) = Inr vs
               \<and> length vs = length entries)
       \<and> (distinct names \<and> distinct (map fst entries) \<longrightarrow>
            mapObjIntoArgsArray this func (Some entries) =
              Inr (map snd (filter (\<lambda>e. fst e \<notin> set names) entries) @
                   map (\<lambda>p. the (map_of entries p))
                     (filter (\<lambda>p. p \<in> fst ` set entries) names)))"
proof (intro conjI impI)
  show "\<exists>vs. mapObjIntoArgsArray this func (Some entries) = Inr vs
              \<and> length vs = length entries"
    using assms by (simp add: mapObjIntoArgsArray_def)
next
  assume "distinct names \<and> distinct (map fst entries)"
  then show "mapObjIntoArgsArray this func (Some entries) =
              Inr (map snd (filter (\<lambda>e. fst e \<notin> set names) entries) @
                   map (\<lambda>p. the (map_of entries p))
                     (filter (\<lambda>p. p \<in> fst ` set entries) names))"
    using mapObjIntoArgsArray_sorted[OF assms, of entries] by simp
qed

theorem mapObjIntoArgsArray_never_rejects_witness:
  "orderedArgNames transfer_contract transfer_fragment = Some [''to'', ''amount'']
   \<and> distinct [''to'', ''amount'']
   \<and> distinct (map fst [(''memo'', 7::nat), (''amount'', 500)])
   \<and> mapObjIntoArgsArray transfer_contract transfer_fragment
        (Some [(''memo'', 7::nat), (''amount'', 500)]) = Inr [7, 500]"
proof -
  let ?es = "[(''memo'', 7::nat), (''amount'', 500)]"
  have h1: "orderedArgNames transfer_contract transfer_fragment = Some [''to'', ''amount'']"
    by (simp add: orderedArgNames_def transfer_contract_def transfer_fragment_def
        transfer_inputs_def)
  have h2: "distinct [''to'', ''amount''] \<and> distinct (map fst ?es)" by simp
  from mapObjIntoArgsArray_never_rejects[OF h1, of ?es] h2
  have "mapObjIntoArgsArray transfer_contract transfer_fragment (Some ?es) =
          Inr (map snd (filter (\<lambda>e. fst e \<notin> set [''to'', ''amount'']) ?es) @
               map (\<lambda>p. the (map_of ?es p))
                 (filter (\<lambda>p. p \<in> fst ` set ?es) [''to'', ''amount'']))"
    by blast
  then have "mapObjIntoArgsArray transfer_contract transfer_fragment (Some ?es) = Inr [7, 500]"
    by simp
  with h1 h2 show ?thesis by blast
qed

text \<open>
  The claim as stated fails for the mapping \<open>{memo: 7, amount: 500}\<close> given to
  \<open>transfer(to, amount)\<close>: \<open>memo\<close> is no declared parameter and \<open>to\<close> has no key, and
  \<open>_mapObjIntoArgsArray\<close> returns the vector \<open>[7, 500]\<close>, not an error.
\<close>

theorem mapObjIntoArgsArray_unknown_missing_counterexample:
  "''memo'' \<notin> set (map arg_name (frag_inputs transfer_fragment))
   \<and> ''to'' \<in> set (map arg_name (frag_inputs transfer_fragment))
   \<and> ''to'' \<notin> fst ` set [(''memo'', 7::nat), (''amount'', 500)]
   \<and> mapObjIntoArgsArray transfer_contract transfer_fragment
        (Some [(''memo'', 7::nat), (''amount'', 500)]) = Inr [7, 500]"
  by (simp add: mapObjIntoArgsArray_def orderedArgNames_def
      transfer_contract_def transfer_fragment_def transfer_inputs_def indexOf_def)

section \<open>Claims about predicate.ts\<close>

text \<open>
  C2. For a bytecode buffer and one declared configurable slot whose offset plus encoded
  width stays within the buffer, applying a value for that slot succeeds, keeps the
  length, leaves the bytes before the offset and from offset + width on unchanged, and
  makes the bytes in between equal to the coder's encoding of the value under the
  slot's declared type.
\<close>

theorem setConfigurableConstants_single_slot:
  assumes "map_of (configurables iface) key = Some c"
    and "encode (fragmentType c) v = Some encoded"
    and "offset c + length encoded \<le> length bs"
  shows "\<exists>patched. setConfigurableConstants encode bs [(key, v)] (Some iface) = Inr patched
           \<and> length patched = length bs
           \<and> take (offset c) patched = take (offset c) bs
           \<and> drop (offset c + length encoded) patched = drop (offset c + length encoded) bs
           \<and> take (length encoded) (drop (offset c) patched) = encoded"
proof -
  from assms(1) have ne: "configurables iface \<noteq> []" by auto
  let ?p = "take (offset c) bs @ encoded @ drop (offset c + length encoded) bs"
  have "setConfigurableConstants encode bs [(key, v)] (Some iface) = Inr ?p"
    using assms ne get_property_own[OF assms(1)]
    by (simp add: setConfigurableConstants_def typedArray_set_def)
  moreover have "length ?p = length bs" using assms(3) by simp
  moreover have "take (offset c) ?p = take (offset c) bs" using assms(3) by simp
  moreover have "drop (offset c + length encoded) ?p = drop (offset c + length encoded) bs"
    using assms(3) by simp
  moreover have "take (length encoded) (drop (offset c) ?p) = encoded"
    using assms(3) by simp
  ultimately show ?thesis by blast
qed

theorem setConfigurableConstants_single_slot_witness:
  "map_of (configurables fee_interface) ''fee'' = Some \<lparr>fragmentType = 8, offset = 40\<rparr>
   \<and> example_encode 8 100 = Some [0, 0, 0, 0, 0, 0, 0, 100]
   \<and> 40 + length [0, 0, 0, 0, 0, 0, 0, 100 :: byte] \<le> length (replicate 64 (255 :: byte))
   \<and> setConfigurableConstants example_encode (replicate 64 255) [(''fee'', 100)]
        (Some fee_interface)
       = Inr (replicate 40 255 @ [0, 0, 0, 0, 0, 0, 0, 100] @ replicate 16 255)"
proof -
  let ?c = "\<lparr>fragmentType = 8 :: nat, offset = 40\<rparr>"
  let ?enc = "[0, 0, 0, 0, 0, 0, 0, 100 :: byte]"
  let ?bs = "replicate 64 (255 :: byte)"
  have h1: "map_of (configurables fee_interface) ''fee'' = Some ?c"
    by (simp add: fee_interface_def)
  have h2: "example_encode (fragmentType ?c) 100 = Some ?enc"
    by (simp add: example_encode_def eval_nat_numeral)
  have h3: "offset ?c + length ?enc \<le> length ?bs" by simp
  from setConfigurableConstants_single_slot[of fee_interface "''fee''" ?c example_encode
      100 ?enc ?bs, OF h1 h2 h3]
  obtain patched where
    r: "setConfigurableConstants example_encode ?bs [(''fee'', 100)] (Some fee_interface)
          = Inr patched"
    and before: "take (offset ?c) patched = take (offset ?c) ?bs"
    and after: "drop (offset ?c + length ?enc) patched = drop (offset ?c + length ?enc) ?bs"
    and at: "take (length ?enc) (drop (offset ?c) patched) = ?enc"
    by blast
  have "take (offset ?c) patched @ take (length ?enc) (drop (offset ?c) patched)
          @ drop (offset ?c + length ?enc) patched
        = take (offset ?c) ?bs @ ?enc @ drop (offset ?c + length ?enc) ?bs"
    by (simp only: before after at)
  then have "patched = take (offset ?c) ?bs @ ?enc @ drop (offset ?c + length ?enc) ?bs"
    by (simp only: three_slices)
  also have "\<dots> = replicate 40 255 @ ?enc @ replicate 16 255" by simp
  finally have "patched = replicate 40 255 @ ?enc @ replicate 16 255" .
  with r h1 h2 h3 show ?thesis by simp
qed

text \<open>
  C3. The constructor derives the address from the bytes that
  \<open>processPredicateData\<close> returns, which for a non-empty value set are the bytes
  patched by \<open>setConfigurableConstants\<close>, together with the chain id; these bytes are
  the predicate's \<open>bytes\<close>. So two predicates with the same configured bytes and chain
  id have the same address; and when the root is collision free, as the specification
  says of it, and \<open>Address.fromB256\<close> is injective, two predicates have the same
  address only if both their configured bytes and their chain ids agree.
\<close>

theorem Predicate_address_from_configured_bytes:
  assumes "Predicate_constructor fromB256 root encode bs chainId abiDoc vals fl = Inr p"
    and "Predicate_constructor fromB256 root encode' bs' chainId' abiDoc' vals' fl' = Inr p'"
  shows "(\<exists>d. processPredicateData encode bs abiDoc vals = Inr d \<and> bytes p = predicateBytes d)
       \<and> (\<forall>cc. vals = Some cc \<and> cc \<noteq> [] \<longrightarrow>
             setConfigurableConstants encode bs cc (interface p) = Inr (bytes p))
       \<and> address p = fromB256 (root (bytes p) chainId)
       \<and> (bytes p = bytes p' \<and> chainId = chainId' \<longrightarrow> address p = address p')
       \<and> (inj fromB256 \<and> collision_free root \<longrightarrow>
             (address p = address p' \<longleftrightarrow> bytes p = bytes p' \<and> chainId = chainId'))"
proof -
  from assms(1) obtain d where
    d: "processPredicateData encode bs abiDoc vals = Inr d"
    and p: "p = \<lparr>address = fromB256 (root (predicateBytes d) chainId),
                 bytes = predicateBytes d,
                 jsonAbi = (case predicateTypes d of None \<Rightarrow> [] | Some ts \<Rightarrow> ts),
                 predicateData = [], interface = predicateInterface d,
                 isBuiltByFuelFactory = fl\<rparr>"
    by (auto simp: Predicate_constructor_def split: sum.splits)
  from assms(2) obtain d' where
    d': "processPredicateData encode' bs' abiDoc' vals' = Inr d'"
    and p': "p' = \<lparr>address = fromB256 (root (predicateBytes d') chainId'),
                 bytes = predicateBytes d',
                 jsonAbi = (case predicateTypes d' of None \<Rightarrow> [] | Some ts \<Rightarrow> ts),
                 predicateData = [], interface = predicateInterface d',
                 isBuiltByFuelFactory = fl'\<rparr>"
    by (auto simp: Predicate_constructor_def split: sum.splits)
  have a: "address p = fromB256 (root (bytes p) chainId)" by (simp add: p)
  have a': "address p' = fromB256 (root (bytes p') chainId')" by (simp add: p')
  have patch: "setConfigurableConstants encode bs cc (interface p) = Inr (bytes p)"
    if "vals = Some cc \<and> cc \<noteq> []" for cc
    using d that
    by (auto simp: p processPredicateData_def split: sum.splits prod.splits)
  have same: "bytes p = bytes p' \<and> chainId = chainId' \<longrightarrow> address p = address p'"
    using a a' by simp
  have differ: "address p = address p' \<longleftrightarrow> bytes p = bytes p' \<and> chainId = chainId'"
    if "inj fromB256 \<and> collision_free root"
  proof
    assume "address p = address p'"
    with a a' have "fromB256 (root (bytes p) chainId) = fromB256 (root (bytes p') chainId')"
      by simp
    with that have "root (bytes p) chainId = root (bytes p') chainId'"
      by (auto dest: injD)
    with that show "bytes p = bytes p' \<and> chainId = chainId'"
      unfolding collision_free_def by blast
  next
    assume "bytes p = bytes p' \<and> chainId = chainId'"
    with same show "address p = address p'" by simp
  qed
  from d p have "\<exists>d. processPredicateData encode bs abiDoc vals = Inr d
                      \<and> bytes p = predicateBytes d"
    by simp
  with patch a same differ show ?thesis by blast
qed

theorem Predicate_address_from_configured_bytes_witness:
  "Predicate_constructor id Pair example_encode [0, 0] 0 (Some fee_interface)
       (Some [(''x'', 7)]) False
     = Inr \<lparr>address = ([7, 0], 0), bytes = [7, 0],
            jsonAbi = [\<lparr>arg_name = ''amount'', arg_type = 8\<rparr>], predicateData = [],
            interface = Some fee_interface, isBuiltByFuelFactory = False\<rparr>
   \<and> Predicate_constructor id Pair example_encode [0, 0] 0 (Some fee_interface)
       (Some [(''x'', 9)]) False
     = Inr \<lparr>address = ([9, 0], 0), bytes = [9, 0],
            jsonAbi = [\<lparr>arg_name = ''amount'', arg_type = 8\<rparr>], predicateData = [],
            interface = Some fee_interface, isBuiltByFuelFactory = False\<rparr>
   \<and> inj (id :: bytes \<times> int \<Rightarrow> bytes \<times> int) \<and> collision_free Pair
   \<and> setConfigurableConstants example_encode [0, 0] [(''x'', 7)] (Some fee_interface)
       = Inr [7, 0]
   \<and> ([7, 0], 0) \<noteq> (([9, 0], 0) :: bytes \<times> int)"
proof -
  let ?p = "\<lparr>address = ([7, 0 :: byte], 0 :: int), bytes = [7, 0],
             jsonAbi = [\<lparr>arg_name = ''amount'', arg_type = 8 :: nat\<rparr>], predicateData = [],
             interface = Some fee_interface, isBuiltByFuelFactory = False\<rparr>"
  let ?p' = "\<lparr>address = ([9, 0 :: byte], 0 :: int), bytes = [9, 0],
             jsonAbi = [\<lparr>arg_name = ''amount'', arg_type = 8 :: nat\<rparr>], predicateData = [],
             interface = Some fee_interface, isBuiltByFuelFactory = False\<rparr>"
  have h1: "Predicate_constructor id Pair example_encode [0, 0] 0 (Some fee_interface)
              (Some [(''x'', 7)]) False = Inr ?p"
    by (simp add: Predicate_constructor_def processPredicateData_def mainFunctionTypes_def
        setConfigurableConstants_def typedArray_set_def example_encode_def fee_interface_def
        get_property_def)
  have h2: "Predicate_constructor id Pair example_encode [0, 0] 0 (Some fee_interface)
              (Some [(''x'', 9)]) False = Inr ?p'"
    by (simp add: Predicate_constructor_def processPredicateData_def mainFunctionTypes_def
        setConfigurableConstants_def typedArray_set_def example_encode_def fee_interface_def
        get_property_def)
  have h3: "inj (id :: bytes \<times> int \<Rightarrow> bytes \<times> int) \<and> collision_free Pair"
    by (simp add: collision_free_def)
  note inst = Predicate_address_from_configured_bytes[OF h1 h2]
  from inst have "setConfigurableConstants example_encode [0, 0] [(''x'', 7)]
                    (interface ?p) = Inr (bytes ?p)"
    by blast
  then have patched: "setConfigurableConstants example_encode [0, 0] [(''x'', 7)]
                        (Some fee_interface) = Inr [7, 0]"
    by simp
  from inst h3 have "address ?p = address ?p' \<longleftrightarrow> bytes ?p = bytes ?p' \<and> (0 :: int) = 0"
    by blast
  then have "([7, 0], 0) \<noteq> (([9, 0], 0) :: bytes \<times> int)" by simp
  with h1 h2 h3 patched show ?thesis by blast
qed

text \<open>
  C4 (amended). For a descriptor that declares configurables and a value set that
  contains a name \<open>y\<close> that it does not declare and that is no member of
  \<open>Object.prototype\<close>, applying the configurables fails. When the entries before \<open>y\<close>
  apply without error, the failure is the unknown-configurable error for \<open>y\<close>, raised
  after the writes of those entries have been made to the working buffer; when \<open>y\<close> is
  the first entry, the buffer is unmodified.
\<close>

theorem setConfigurableConstants_unknown_name:
  assumes "configurables iface \<noteq> []"
    and "map_of (configurables iface) y = None"
    and "y \<notin> set Object_prototype_names"
  shows "(y \<in> fst ` set entries \<longrightarrow>
            (\<exists>e buf. setConfigurableConstants encode bs entries (Some iface) = Inl (e, buf)))
       \<and> (forEach_entries encode (configurables iface) pre bs = Inr buf' \<longrightarrow>
            setConfigurableConstants encode bs (pre @ (y, v) # post) (Some iface)
              = Inl (ConfigurableConstantsError (UnknownConfigurable y), buf'))
       \<and> setConfigurableConstants encode bs ((y, v) # post) (Some iface)
              = Inl (ConfigurableConstantsError (UnknownConfigurable y), bs)"
proof (intro conjI impI)
  assume "y \<in> fst ` set entries"
  from forEach_entries_unknown_fails[OF this assms(2)]
  obtain c b where "forEach_entries encode (configurables iface) entries bs = Inl (c, b)"
    by blast
  then show "\<exists>e buf. setConfigurableConstants encode bs entries (Some iface) = Inl (e, buf)"
    using assms(1) by (simp add: setConfigurableConstants_def)
next
  assume "forEach_entries encode (configurables iface) pre bs = Inr buf'"
  then show "setConfigurableConstants encode bs (pre @ (y, v) # post) (Some iface)
              = Inl (ConfigurableConstantsError (UnknownConfigurable y), buf')"
    using assms(1) get_property_undefined[OF assms(2,3)]
    by (simp add: setConfigurableConstants_def forEach_entries_append)
next
  show "setConfigurableConstants encode bs ((y, v) # post) (Some iface)
              = Inl (ConfigurableConstantsError (UnknownConfigurable y), bs)"
    using assms(1) get_property_undefined[OF assms(2,3)]
    by (simp add: setConfigurableConstants_def)
qed

theorem setConfigurableConstants_unknown_name_witness:
  "configurables fee_interface \<noteq> []
   \<and> map_of (configurables fee_interface) ''y'' = None
   \<and> ''y'' \<notin> set Object_prototype_names
   \<and> ''y'' \<in> fst ` set [(''x'', 7 :: byte), (''y'', 9)]
   \<and> forEach_entries example_encode (configurables fee_interface) [(''x'', 7)] [0, 0]
       = Inr [7, 0]
   \<and> setConfigurableConstants example_encode [0, 0] ([(''x'', 7)] @ (''y'', 9) # [])
        (Some fee_interface)
       = Inl (ConfigurableConstantsError (UnknownConfigurable ''y''), [7, 0])
   \<and> setConfigurableConstants example_encode [0, 0] [(''y'', 9)] (Some fee_interface)
       = Inl (ConfigurableConstantsError (UnknownConfigurable ''y''), [0, 0])"
proof -
  have h1: "configurables fee_interface \<noteq> []" by (simp add: fee_interface_def)
  have h2: "map_of (configurables fee_interface) ''y'' = None"
    by (simp add: fee_interface_def)
  have h2': "''y'' \<notin> set Object_prototype_names"
    by (simp add: Object_prototype_names_def)
  have h3: "''y'' \<in> fst ` set [(''x'', 7 :: byte), (''y'', 9)]" by simp
  have h4: "forEach_entries example_encode (configurables fee_interface) [(''x'', 7)] [0, 0]
              = Inr [7, 0]"
    by (simp add: fee_interface_def example_encode_def typedArray_set_def get_property_def)
  note inst = setConfigurableConstants_unknown_name[OF h1 h2 h2',
      of _ example_encode "[0, 0]" "[(''x'', 7)]" "[7, 0]" 9 "[]"]
  from inst h4
  have a: "setConfigurableConstants example_encode [0, 0] ([(''x'', 7)] @ (''y'', 9) # [])
             (Some fee_interface)
           = Inl (ConfigurableConstantsError (UnknownConfigurable ''y''), [7, 0])"
    by blast
  from inst
  have b: "setConfigurableConstants example_encode [0, 0] [(''y'', 9)] (Some fee_interface)
           = Inl (ConfigurableConstantsError (UnknownConfigurable ''y''), [0, 0])"
    by blast
  from h1 h2 h2' h3 h4 a b show ?thesis by blast
qed

text \<open>
  The claim as stated fails for the value set \<open>{x: 7, y: 9}\<close> on a descriptor that
  declares \<open>x\<close> and not \<open>y\<close>: the byte of \<open>x\<close> is written before the failure, so the
  buffer is modified. It also fails for \<open>{fee: 1, y: 9}\<close> on a two-byte buffer, where the
  failure is the out-of-range error of \<open>fee\<close> and not the unknown-configurable error.
\<close>

theorem setConfigurableConstants_partial_write_counterexample:
  "map_of (configurables fee_interface) ''y'' = None
   \<and> setConfigurableConstants example_encode [0, 0] [(''x'', 7), (''y'', 9)]
        (Some fee_interface)
       = Inl (ConfigurableConstantsError (UnknownConfigurable ''y''), [7, 0])
   \<and> [7, 0] \<noteq> [0, 0 :: byte]
   \<and> setConfigurableConstants example_encode [0, 0] [(''fee'', 1), (''y'', 9)]
        (Some fee_interface)
       = Inl (ConfigurableConstantsError OffsetOutOfRange, [0, 0])"
  by (simp add: setConfigurableConstants_def fee_interface_def example_encode_def
      typedArray_set_def get_property_def Object_prototype_names_def)

text \<open>
  C5. For every declared configurable slot whose offset plus encoded width exceeds the
  length of the bytecode, applying a value for that slot (after entries that applied
  without error, if any) fails with the out-of-range error; nothing of the value is
  written and the buffer keeps its length.
\<close>

theorem setConfigurableConstants_offset_out_of_range:
  assumes "forEach_entries encode (configurables iface) pre bs = Inr buf"
    and "map_of (configurables iface) key = Some c"
    and "encode (fragmentType c) v = Some encoded"
    and "offset c + length encoded > length bs"
  shows "setConfigurableConstants encode bs (pre @ (key, v) # post) (Some iface)
           = Inl (ConfigurableConstantsError OffsetOutOfRange, buf)
         \<and> length buf = length bs"
proof -
  from assms(2) have ne: "configurables iface \<noteq> []" by auto
  from forEach_entries_length[of encode "configurables iface" pre bs buf] assms(1)
  have len: "length buf = length bs" by simp
  have "forEach_entries encode (configurables iface) ((key, v) # post) buf
          = Inl (OffsetOutOfRange, buf)"
    using assms(2,3,4) len get_property_own[OF assms(2)] by (simp add: typedArray_set_def)
  then show ?thesis
    using ne assms(1) len
    by (simp add: setConfigurableConstants_def forEach_entries_append)
qed

theorem setConfigurableConstants_offset_out_of_range_witness:
  "forEach_entries example_encode (configurables fee_interface) [] [0, 0] = Inr [0, 0]
   \<and> map_of (configurables fee_interface) ''fee'' = Some \<lparr>fragmentType = 8, offset = 40\<rparr>
   \<and> example_encode 8 100 = Some [0, 0, 0, 0, 0, 0, 0, 100]
   \<and> 40 + length [0, 0, 0, 0, 0, 0, 0, 100 :: byte] > length [0, 0 :: byte]
   \<and> setConfigurableConstants example_encode [0, 0] [(''fee'', 100)] (Some fee_interface)
       = Inl (ConfigurableConstantsError OffsetOutOfRange, [0, 0])"
proof -
  let ?c = "\<lparr>fragmentType = 8 :: nat, offset = 40\<rparr>"
  let ?enc = "[0, 0, 0, 0, 0, 0, 0, 100 :: byte]"
  have h1: "forEach_entries example_encode (configurables fee_interface) [] [0, 0]
              = Inr [0, 0]"
    by simp
  have h2: "map_of (configurables fee_interface) ''fee'' = Some ?c"
    by (simp add: fee_interface_def)
  have h3: "example_encode (fragmentType ?c) 100 = Some ?enc"
    by (simp add: example_encode_def eval_nat_numeral)
  have h4: "offset ?c + length ?enc > length [0, 0 :: byte]" by simp
  from setConfigurableConstants_offset_out_of_range[of example_encode fee_interface "[]"
      "[0, 0]" "[0, 0]" "''fee''" ?c 100 ?enc "[]", OF h1 h2 h3 h4]
  have "setConfigurableConstants example_encode [0, 0] [(''fee'', 100)] (Some fee_interface)
          = Inl (ConfigurableConstantsError OffsetOutOfRange, [0, 0])"
    by simp
  with h1 h2 h3 h4 show ?thesis by simp
qed

text \<open>
  C8. Applying configurables with an empty value set is a no-op: when processing bytes
  \<open>b\<close> with a value set \<open>v\<close> and a descriptor \<open>d\<close> returns a result, processing that
  result's bytes with the empty value set and \<open>d\<close> returns the same result. Whenever
  processing with the empty value set returns, the bytes it returns are the bytes given.
\<close>

theorem processPredicateData_empty_values_noop:
  assumes "processPredicateData encode bs abiDoc vals = Inr d"
  shows "processPredicateData encode (predicateBytes d) abiDoc (Some []) = Inr d
       \<and> (\<forall>b' d'. processPredicateData encode b' abiDoc (Some []) = Inr d' \<longrightarrow>
             predicateBytes d' = b')"
proof (intro conjI allI impI)
  show "processPredicateData encode (predicateBytes d) abiDoc (Some []) = Inr d"
    using assms
    by (auto simp: processPredicateData_def
        split: sum.splits option.splits if_splits prod.splits)
next
  fix b' d'
  assume "processPredicateData encode b' abiDoc (Some []) = Inr d'"
  then show "predicateBytes d' = b'"
    by (auto simp: processPredicateData_def split: sum.splits prod.splits)
qed

theorem processPredicateData_empty_values_noop_witness:
  "processPredicateData example_encode [0, 0] (Some fee_interface) (Some [(''x'', 7)])
     = Inr \<lparr>predicateBytes = [7, 0],
            predicateTypes = Some [\<lparr>arg_name = ''amount'', arg_type = 8\<rparr>],
            predicateInterface = Some fee_interface\<rparr>
   \<and> processPredicateData example_encode [7, 0] (Some fee_interface) (Some [])
     = Inr \<lparr>predicateBytes = [7, 0],
            predicateTypes = Some [\<lparr>arg_name = ''amount'', arg_type = 8\<rparr>],
            predicateInterface = Some fee_interface\<rparr>"
proof -
  let ?d = "\<lparr>predicateBytes = [7, 0 :: byte],
             predicateTypes = Some [\<lparr>arg_name = ''amount'', arg_type = 8 :: nat\<rparr>],
             predicateInterface = Some fee_interface\<rparr>"
  have h: "processPredicateData example_encode [0, 0] (Some fee_interface)
             (Some [(''x'', 7)]) = Inr ?d"
    by (simp add: processPredicateData_def mainFunctionTypes_def
        setConfigurableConstants_def typedArray_set_def example_encode_def fee_interface_def
        get_property_def)
  from processPredicateData_empty_values_noop[OF h]
  have "processPredicateData example_encode (predicateBytes ?d) (Some fee_interface) (Some [])
          = Inr ?d"
    by blast
  then have "processPredicateData example_encode [7, 0] (Some fee_interface) (Some []) = Inr ?d"
    by simp
  with h show ?thesis by simp
qed

text \<open>
  C9 (amended). For every transaction request that \<open>transactionRequestify\<close> accepts and
  in which \<open>hexlify\<close> accepts the owner of every coin input,
  \<open>populateTransactionPredicateData\<close> returns the request with the same number of inputs
  and the same other fields; an input is changed exactly when it is a coin input whose
  owner, hexlified, equals the B256 form of the predicate's address, and then only its
  \<open>predicate\<close> and \<open>predicateData\<close> fields are set, to the predicate's bytes and
  predicate data; no input changes its type.
\<close>

theorem populateTransactionPredicateData_frame:
  assumes "transactionRequestify like = Some request"
    and "\<forall>ins c. inputs request = Some ins \<and> CoinInput c \<in> set ins \<longrightarrow>
           hexlify (owner c) \<noteq> None"
  shows "\<exists>r. populateTransactionPredicateData transactionRequestify hexlify toB256 this like
               = Inr r
     \<and> request_fields r = request_fields request
     \<and> (inputs request = None \<longrightarrow> inputs r = None)
     \<and> (\<forall>ins. inputs request = Some ins \<longrightarrow>
          (\<exists>outs. inputs r = Some outs
             \<and> length outs = length ins
             \<and> (\<forall>i < length ins.
                  input_type (outs ! i) = input_type (ins ! i)
                \<and> (\<forall>c. ins ! i = CoinInput c
                         \<and> hexlify (owner c) = Some (toB256 (address this)) \<longrightarrow>
                       outs ! i = CoinInput (c\<lparr>predicate := Some (bytes this),
                                               input_predicateData := Some (predicateData this)\<rparr>))
                \<and> ((\<forall>c. ins ! i = CoinInput c \<longrightarrow>
                          hexlify (owner c) \<noteq> Some (toB256 (address this)))
                     \<longrightarrow> outs ! i = ins ! i))))"
proof (cases "inputs request")
  case None
  then have "populateTransactionPredicateData transactionRequestify hexlify toB256 this like
               = Inr request"
    using assms(1) by (simp add: populateTransactionPredicateData_def)
  with None show ?thesis by simp
next
  case (Some ins)
  with assms(2) have "\<forall>c. CoinInput c \<in> set ins \<longrightarrow> hexlify (owner c) \<noteq> None" by simp
  from forEach_inputs_returns[OF this, of toB256 this] obtain outs where
    r: "forEach_inputs hexlify toB256 this ins = Inr outs"
    and len: "length outs = length ins"
    and each: "\<forall>i < length ins. populate_input hexlify toB256 this (ins ! i) = Inr (outs ! i)"
    by blast
  let ?r = "request\<lparr>inputs := Some outs\<rparr>"
  have res: "populateTransactionPredicateData transactionRequestify hexlify toB256 this like
               = Inr ?r"
    using assms(1) Some r by (simp add: populateTransactionPredicateData_def)
  have frame: "input_type (outs ! i) = input_type (ins ! i)
      \<and> (\<forall>c. ins ! i = CoinInput c \<and> hexlify (owner c) = Some (toB256 (address this)) \<longrightarrow>
             outs ! i = CoinInput (c\<lparr>predicate := Some (bytes this),
                                     input_predicateData := Some (predicateData this)\<rparr>))
      \<and> ((\<forall>c. ins ! i = CoinInput c \<longrightarrow> hexlify (owner c) \<noteq> Some (toB256 (address this)))
           \<longrightarrow> outs ! i = ins ! i)"
    if "i < length ins" for i
  proof -
    from each that have p: "populate_input hexlify toB256 this (ins ! i) = Inr (outs ! i)"
      by simp
    from populate_input_type[OF p]
    have ty: "input_type (outs ! i) = input_type (ins ! i)" .
    have rest: "(\<forall>c. ins ! i = CoinInput c
                    \<and> hexlify (owner c) = Some (toB256 (address this)) \<longrightarrow>
             outs ! i = CoinInput (c\<lparr>predicate := Some (bytes this),
                                     input_predicateData := Some (predicateData this)\<rparr>))
      \<and> ((\<forall>c. ins ! i = CoinInput c \<longrightarrow> hexlify (owner c) \<noteq> Some (toB256 (address this)))
           \<longrightarrow> outs ! i = ins ! i)"
      using p[symmetric] by (cases "ins ! i") (auto split: option.splits if_splits)
    from ty rest show ?thesis by blast
  qed
  have fields: "request_fields ?r = request_fields request" by simp
  have none: "inputs request = None \<longrightarrow> inputs ?r = None" using Some by simp
  have some: "\<forall>ins'. inputs request = Some ins' \<longrightarrow>
          (\<exists>outs. inputs ?r = Some outs
             \<and> length outs = length ins'
             \<and> (\<forall>i < length ins'.
                  input_type (outs ! i) = input_type (ins' ! i)
                \<and> (\<forall>c. ins' ! i = CoinInput c
                         \<and> hexlify (owner c) = Some (toB256 (address this)) \<longrightarrow>
                       outs ! i = CoinInput (c\<lparr>predicate := Some (bytes this),
                                               input_predicateData := Some (predicateData this)\<rparr>))
                \<and> ((\<forall>c. ins' ! i = CoinInput c \<longrightarrow>
                          hexlify (owner c) \<noteq> Some (toB256 (address this)))
                     \<longrightarrow> outs ! i = ins' ! i)))"
    using Some len frame by simp
  show ?thesis
  proof (intro exI[of _ ?r] conjI)
    show "populateTransactionPredicateData transactionRequestify hexlify toB256 this like
            = Inr ?r"
      by (rule res)
  qed (rule fields, rule none, rule some)
qed

theorem populateTransactionPredicateData_frame_witness:
  "inputs example_request =
     Some [CoinInput \<lparr>owner = ''0xaa'', predicate = None, input_predicateData = None,
                       coin_fields = ()\<rparr>,
           CoinInput \<lparr>owner = ''0xbb'', predicate = None, input_predicateData = None,
                       coin_fields = ()\<rparr>,
           ContractInput ()]
   \<and> hexlify_string ''0xaa'' = Some (id (address example_predicate))
   \<and> hexlify_string ''0xbb'' = Some ''0xbb''
   \<and> ''0xbb'' \<noteq> id (address example_predicate)
   \<and> (\<exists>r outs. populateTransactionPredicateData Some hexlify_string id example_predicate
                        example_request = Inr r
        \<and> inputs r = Some outs
        \<and> length outs = 3
        \<and> outs ! 0 = CoinInput \<lparr>owner = ''0xaa'', predicate = Some [1, 2],
                                 input_predicateData = Some [3], coin_fields = ()\<rparr>
        \<and> outs ! 1 = CoinInput \<lparr>owner = ''0xbb'', predicate = None,
                                 input_predicateData = None, coin_fields = ()\<rparr>
        \<and> outs ! 2 = ContractInput ())"
proof -
  let ?c0 = "\<lparr>owner = ''0xaa'', predicate = None :: bytes option,
              input_predicateData = None :: bytes option, coin_fields = ()\<rparr>"
  let ?c1 = "\<lparr>owner = ''0xbb'', predicate = None :: bytes option,
              input_predicateData = None :: bytes option, coin_fields = ()\<rparr>"
  let ?ins = "[CoinInput ?c0, CoinInput ?c1, ContractInput ()]"
  have h: "inputs example_request = Some ?ins" by (simp add: example_request_def)
  have x0: "hexlify_string ''0xaa'' = Some (id (address example_predicate))"
    by (simp add: example_predicate_def is_hex_digit_def hex_lower_def)
  have x1: "hexlify_string ''0xbb'' = Some ''0xbb''"
    by (simp add: is_hex_digit_def hex_lower_def)
  have x1': "''0xbb'' \<noteq> id (address example_predicate)"
    by (simp add: example_predicate_def)
  have h1: "Some example_request = Some example_request" by simp
  have h2: "\<forall>ins c. inputs example_request = Some ins \<and> CoinInput c \<in> set ins \<longrightarrow>
              hexlify_string (owner c) \<noteq> None"
    using x0 x1 by (auto simp: example_request_def)
  from populateTransactionPredicateData_frame[of Some example_request example_request
      hexlify_string id example_predicate, OF h1 h2] h
  obtain r outs where
    r: "populateTransactionPredicateData Some hexlify_string id example_predicate
          example_request = Inr r"
    and outs: "inputs r = Some outs"
    and len: "length outs = length ?ins"
    and each: "\<forall>i < length ?ins.
        input_type (outs ! i) = input_type (?ins ! i)
      \<and> (\<forall>c. ?ins ! i = CoinInput c
               \<and> hexlify_string (owner c) = Some (id (address example_predicate)) \<longrightarrow>
             outs ! i = CoinInput (c\<lparr>predicate := Some (bytes example_predicate),
                                     input_predicateData := Some (predicateData example_predicate)\<rparr>))
      \<and> ((\<forall>c. ?ins ! i = CoinInput c \<longrightarrow>
               hexlify_string (owner c) \<noteq> Some (id (address example_predicate)))
           \<longrightarrow> outs ! i = ?ins ! i)"
    by blast
  have l0: "0 < length ?ins" and l1: "1 < length ?ins" and l2: "2 < length ?ins"
    by simp_all
  have o0': "?ins ! 0 = CoinInput ?c0
             \<and> hexlify_string (owner ?c0) = Some (id (address example_predicate))"
    using x0 by simp
  from each[THEN spec, THEN mp, OF l0] o0'
  have "outs ! 0 = CoinInput (?c0\<lparr>predicate := Some (bytes example_predicate),
                     input_predicateData := Some (predicateData example_predicate)\<rparr>)"
    by blast
  then have a0: "outs ! 0 = CoinInput \<lparr>owner = ''0xaa'', predicate = Some [1, 2],
                                 input_predicateData = Some [3], coin_fields = ()\<rparr>"
    by (simp add: example_predicate_def)
  have n1: "\<forall>c. ?ins ! 1 = CoinInput c \<longrightarrow>
              hexlify_string (owner c) \<noteq> Some (id (address example_predicate))"
    using x1 x1' by auto
  from each[THEN spec, THEN mp, OF l1] n1 have "outs ! 1 = ?ins ! 1" by blast
  then have a1: "outs ! 1 = CoinInput ?c1" by simp
  have n2: "\<forall>c. ?ins ! 2 = CoinInput c \<longrightarrow>
              hexlify_string (owner c) \<noteq> Some (id (address example_predicate))"
    by simp
  from each[THEN spec, THEN mp, OF l2] n2 have "outs ! 2 = ?ins ! 2" by blast
  then have a2: "outs ! 2 = ContractInput ()" by simp
  from len have "length outs = 3" by simp
  with h x0 x1 x1' r outs a0 a1 a2 show ?thesis by blast
qed

text \<open>
  The claim as stated fails for a request whose second coin input has the owner
  \<open>not-hex\<close>, which \<open>hexlify\<close> does not accept: the method fails, after the first input
  has had its predicate fields set.
\<close>

theorem populateTransactionPredicateData_hexlify_counterexample:
  "hexlify_string ''not-hex'' = None
   \<and> populateTransactionPredicateData Some hexlify_string id example_predicate
        malformed_request =
       Inl (HexlifyError,
            Some \<lparr>inputs = Some
                    [CoinInput \<lparr>owner = ''0xaa'', predicate = Some [1, 2],
                                 input_predicateData = Some [3], coin_fields = ()\<rparr>,
                     CoinInput \<lparr>owner = ''not-hex'', predicate = None,
                                 input_predicateData = None, coin_fields = ()\<rparr>],
                  request_fields = ()\<rparr>)"
  by (simp add: populateTransactionPredicateData_def malformed_request_def
      example_predicate_def is_hex_digit_def hex_lower_def)

text \<open>
  C10. Constructing a Predicate with a JSON ABI none of whose fragments is named
  \<open>main\<close> fails with the argument error, in the current constructor and in the earlier
  revision alike; no Predicate is produced.
\<close>

theorem Predicate_constructor_requires_main:
  assumes "''main'' \<notin> set (map frag_name (fragments iface))"
  shows "Predicate_constructor fromB256 root encode bs chainId (Some iface) vals fl
           = Inl ArgumentError
       \<and> Predicate_v1_constructor fromB256' root' bs (Some iface) = Inl ArgumentError"
proof -
  from assms have "find (\<lambda>f. frag_name f = ''main'') (fragments iface) = None"
    by (force simp: find_None_iff)
  then show ?thesis
    by (simp add: Predicate_constructor_def Predicate_v1_constructor_def
        processPredicateData_def mainFunctionTypes_def)
qed

theorem Predicate_constructor_requires_main_witness:
  "''main'' \<notin> set (map frag_name (fragments (contract_interface transfer_contract)))
   \<and> Predicate_constructor (id :: bytes \<times> int \<Rightarrow> bytes \<times> int) Pair example_encode [0, 0] 0
        (Some (contract_interface transfer_contract)) None False = Inl ArgumentError
   \<and> Predicate_v1_constructor (id :: bytes \<Rightarrow> bytes) id [0, 0]
        (Some (contract_interface transfer_contract)) = Inl ArgumentError"
proof -
  have h: "''main'' \<notin> set (map frag_name (fragments (contract_interface transfer_contract)))"
    by (simp add: transfer_contract_def transfer_fragment_def)
  from Predicate_constructor_requires_main[OF h] h show ?thesis by blast
qed

end
